theory Spec2Isabelle
  imports Complex_Main
begin

section \<open>Python strings\<close>

text \<open>
  A Python \<open>str\<close> is a sequence of Unicode code points, and \<open>len\<close> counts code
  points. Register names and pickup codes are therefore lists of code points; \<open>py\<close>
  turns an ASCII literal into such a list.
\<close>

type_synonym pystr = "nat list"

definition py :: "string \<Rightarrow> pystr" where
  "py s = map of_char s"

section \<open>config.py\<close>

text \<open>\<open>REGISTER_MAP\<close>: symbolic register name to holding-register address.\<close>

definition REGISTER_MAP :: "pystr \<rightharpoonup> nat" where
  "REGISTER_MAP = map_of
    [(py ''DOOR_CONTROL'', 0xBB8),
     (py ''LANDING_PAD_STATUS'', 0xBB9),
     (py ''DRONE_PACKAGE_OP'', 0xBBA),
     (py ''DRONE_SERVO'', 0xBBB),
     (py ''DRONE_STORE_POS'', 0xBBC),
     (py ''DRONE_PICKUP_POS'', 0xBBD),
     (py ''STORAGE_STATUS'', 0xBBE),
     (py ''PICKUP_STORAGE_STATUS'', 0xBBF),
     (py ''SERVO_STATUS'', 0xBC0),
     (py ''PICKUP_CODE_FRONT'', 0xBC1),
     (py ''PICKUP_CODE_REAR'', 0xBC2),
     (py ''PICKUP_POSITION'', 0xBC3),
     (py ''USER_PICKUP_OP'', 0xBC4),
     (py ''USER_RECYCLE_OP'', 0xBC5),
     (py ''USER_CONFIRM_RECYCLE'', 0xBC6),
     (py ''SEND_EMPTY_BOX_POS'', 0xBC7),
     (py ''USER_SEND_OP'', 0xBC8),
     (py ''SEND_BOX_POS'', 0xBCA),
     (py ''SEND_BOX_WEIGHT'', 0xBCB),
     (py ''SYSTEM_CONTROL'', 0xBCC),
     (py ''SYSTEM_STATUS'', 0xBCD),
     (py ''SYSTEM_ALARM'', 0xBCE),
     (py ''FAULT_CLEAR'', 0xBCF),
     (py ''SEND_CODE_FRONT'', 0xBD0),
     (py ''SEND_CODE_REAR'', 0xBD1),
     (py ''SEND_STORAGE_STATUS'', 0xBD2),
     (py ''WEATHER_HUMIDITY'', 0x8FC),
     (py ''WEATHER_TEMPERATURE'', 0x8FE),
     (py ''WEATHER_WIND_FORCE'', 0x900),
     (py ''WEATHER_RAINFALL'', 0x902),
     (py ''WEATHER_WIND_SPEED'', 0x904),
     (py ''WEATHER_WIND_DIRECTION'', 0x906),
     (py ''WEATHER_PRESSURE'', 0x908),
     (py ''ALARM_START'', 0xBFE)]"

text \<open>
  \<open>OPERATION_CODES\<close> and \<open>POSITION_CODES\<close>: the entries the controllers below
  look up, one constant per key. A code has a meaning only together with its register.
\<close>

definition DOOR_OPEN :: int where "DOOR_OPEN = 10"
definition DOOR_CLOSE :: int where "DOOR_CLOSE = 20"
definition DOOR_OPEN_COMPLETE :: int where "DOOR_OPEN_COMPLETE = 11"
definition DOOR_CLOSE_COMPLETE :: int where "DOOR_CLOSE_COMPLETE = 21"
definition DRONE_PRESENT :: int where "DRONE_PRESENT = 10"
definition DRONE_ABSENT :: int where "DRONE_ABSENT = 20"
definition DRONE_PRESENT_CONFIRM :: int where "DRONE_PRESENT_CONFIRM = 11"
definition DRONE_ABSENT_CONFIRM :: int where "DRONE_ABSENT_CONFIRM = 21"
definition STORE_PACKAGE :: int where "STORE_PACKAGE = 110"
definition PICKUP_IN_PROGRESS :: int where "PICKUP_IN_PROGRESS = 120"
definition PICKUP_COMPLETE :: int where "PICKUP_COMPLETE = 121"
definition NO_PICKUP_COMPLETE :: int where "NO_PICKUP_COMPLETE = 122"
definition SERVO_OPEN :: int where "SERVO_OPEN = 10"
definition SERVO_CLOSE :: int where "SERVO_CLOSE = 20"
definition SERVO_OPEN_CONFIRM :: int where "SERVO_OPEN_CONFIRM = 11"
definition SERVO_CLOSE_CONFIRM :: int where "SERVO_CLOSE_CONFIRM = 21"
definition SERVO_CAN_OPEN :: int where "SERVO_CAN_OPEN = 1"
definition SERVO_CAN_CLOSE :: int where "SERVO_CAN_CLOSE = 2"
definition STORAGE_FULL :: int where "STORAGE_FULL = 10"
definition STORAGE_AVAILABLE :: int where "STORAGE_AVAILABLE = 20"
definition POSITION_1 :: int where "POSITION_1 = 101"
definition POSITION_2 :: int where "POSITION_2 = 102"
definition POSITION_3 :: int where "POSITION_3 = 103"

named_theorems codes \<open>values of the operation and position codes\<close>

lemmas operation_codes [codes] =
  DOOR_OPEN_def DOOR_CLOSE_def DOOR_OPEN_COMPLETE_def DOOR_CLOSE_COMPLETE_def
  DRONE_PRESENT_def DRONE_ABSENT_def DRONE_PRESENT_CONFIRM_def DRONE_ABSENT_CONFIRM_def
  STORE_PACKAGE_def PICKUP_IN_PROGRESS_def PICKUP_COMPLETE_def NO_PICKUP_COMPLETE_def
  SERVO_OPEN_def SERVO_CLOSE_def SERVO_OPEN_CONFIRM_def SERVO_CLOSE_CONFIRM_def
  SERVO_CAN_OPEN_def SERVO_CAN_CLOSE_def STORAGE_FULL_def STORAGE_AVAILABLE_def
  POSITION_1_def POSITION_2_def POSITION_3_def

section \<open>The PLC and the clock\<close>

text \<open>
  The PLC is reached through pymodbus, outside the repository. One access of the
  transport (\<open>client.read_holding_registers\<close> or \<open>client.write_register\<close>) has
  three outcomes: a response that is not an error (for a read it carries the register
  value), a response with \<open>isError()\<close>, or a raised \<open>ModbusException\<close>.

  The program is sequential and deterministic, so the PLC's behaviour during a run is
  fixed by the reply to the first access, to the second, and so on: \<open>reply_of\<close> gives
  the reply to the \<open>n\<close>-th access and \<open>latency\<close> the time it takes in milliseconds.
\<close>

datatype reply = Value int | ErrorResponse | ModbusException

record plc =
  reply_of :: "nat \<Rightarrow> reply"
  latency :: "nat \<Rightarrow> nat"

text \<open>
  What a run can be observed to do: the transport accesses in order, and a mark for each
  poll of a wait loop and for each entry into a door command (the door controller logs a
  line there).
\<close>

datatype event =
    ReadReg nat
  | WriteReg nat int
  | Poll pystr
  | DoorOpenStart
  | DoorCloseStart

text \<open>
  The state a run threads through: the wall clock \<open>time.time()\<close> in milliseconds, the
  number of transport accesses made so far, and the observations.
\<close>

record world =
  clock :: int
  accesses :: nat
  trace :: "event list"

definition transport :: "plc \<Rightarrow> event \<Rightarrow> world \<Rightarrow> reply \<times> world" where
  "transport p e w =
     (reply_of p (accesses w),
      w\<lparr>clock := clock w + int (latency p (accesses w)),
        accesses := Suc (accesses w),
        trace := trace w @ [e]\<rparr>)"

definition sleep :: "int \<Rightarrow> world \<Rightarrow> world" where
  "sleep ms w = w\<lparr>clock := clock w + ms\<rparr>"

definition mark :: "event \<Rightarrow> world \<Rightarrow> world" where
  "mark e w = w\<lparr>trace := trace w @ [e]\<rparr>"

section \<open>modbus\_client.py\<close>

text \<open>
  The fields of \<open>ModbusClient\<close> that the register operations read. A negative
  \<open>retry_count\<close> makes \<open>range\<close> empty like 0 does, so the count is a natural number.
\<close>

record client =
  is_connected :: bool
  retry_count :: nat

text \<open>
  The \<open>for attempt in range(self.retry_count)\<close> loops, by recursion on the number of
  attempts left: \<open>attempt < self.retry_count - 1\<close> says that an attempt is left after
  this one.
\<close>

fun read_attempts :: "plc \<Rightarrow> nat \<Rightarrow> nat \<Rightarrow> world \<Rightarrow> int option \<times> world" where
  "read_attempts p address 0 w = (None, w)"
| "read_attempts p address (Suc n) w =
     (case transport p (ReadReg address) w of
        (Value v, w') \<Rightarrow> (Some v, w')
      | (ErrorResponse, w') \<Rightarrow> read_attempts p address n w'
      | (ModbusException, w') \<Rightarrow>
          read_attempts p address n (if 0 < n then sleep 100 w' else w'))"

definition read_holding_register :: "plc \<Rightarrow> client \<Rightarrow> nat \<Rightarrow> world \<Rightarrow> int option \<times> world" where
  "read_holding_register p c address w =
     (if \<not> is_connected c then (None, w)
      else read_attempts p address (retry_count c) w)"

fun write_attempts :: "plc \<Rightarrow> nat \<Rightarrow> int \<Rightarrow> nat \<Rightarrow> world \<Rightarrow> bool \<times> world" where
  "write_attempts p address v 0 w = (False, w)"
| "write_attempts p address v (Suc n) w =
     (case transport p (WriteReg address v) w of
        (Value _, w') \<Rightarrow> (True, w')
      | (ErrorResponse, w') \<Rightarrow> write_attempts p address v n w'
      | (ModbusException, w') \<Rightarrow>
          write_attempts p address v n (if 0 < n then sleep 100 w' else w'))"

definition write_holding_register :: "plc \<Rightarrow> client \<Rightarrow> nat \<Rightarrow> int \<Rightarrow> world \<Rightarrow> bool \<times> world" where
  "write_holding_register p c address v w =
     (if \<not> is_connected c then (False, w)
      else write_attempts p address v (retry_count c) w)"

definition read_register_by_name :: "plc \<Rightarrow> client \<Rightarrow> pystr \<Rightarrow> world \<Rightarrow> int option \<times> world" where
  "read_register_by_name p c register_name w =
     (case REGISTER_MAP register_name of
        None \<Rightarrow> (None, w)
      | Some address \<Rightarrow> read_holding_register p c address w)"

definition write_register_by_name :: "plc \<Rightarrow> client \<Rightarrow> pystr \<Rightarrow> int \<Rightarrow> world \<Rightarrow> bool \<times> world" where
  "write_register_by_name p c register_name v w =
     (case REGISTER_MAP register_name of
        None \<Rightarrow> (False, w)
      | Some address \<Rightarrow> write_holding_register p c address v w)"

text \<open>
  Time only moves forward through a register operation; the wait loop below terminates
  because of it.
\<close>

lemma clock_read_attempts: "clock w \<le> clock (snd (read_attempts p address n w))"
proof (induction n arbitrary: w)
  case 0
  show ?case by simp
next
  case (Suc n)
  let ?w1 = "snd (transport p (ReadReg address) w)"
  have step: "clock w \<le> clock ?w1" "clock w \<le> clock (sleep 100 ?w1)"
    by (simp_all add: transport_def sleep_def)
  show ?case
  proof (cases "reply_of p (accesses w)")
    case (Value v)
    then show ?thesis by (simp add: transport_def)
  next
    case ErrorResponse
    then have "read_attempts p address (Suc n) w = read_attempts p address n ?w1"
      by (simp add: transport_def)
    with Suc.IH[of ?w1] step(1) show ?thesis by simp
  next
    case ModbusException
    then have "read_attempts p address (Suc n) w =
        read_attempts p address n (if 0 < n then sleep 100 ?w1 else ?w1)"
      by (simp add: transport_def)
    with Suc.IH[of "sleep 100 ?w1"] Suc.IH[of ?w1] step show ?thesis
      by (simp split: if_splits)
  qed
qed

lemma clock_read_register_by_name:
  "clock w \<le> clock (snd (read_register_by_name p c register_name w))"
  by (simp add: read_register_by_name_def read_holding_register_def clock_read_attempts
      split: option.split)

text \<open>
  \<open>wait_for_register_value\<close>: \<open>start_time = time.time()\<close>, then the
  \<open>while time.time() - start_time < timeout\<close> loop with its \<open>time.sleep(0.5)\<close>.
  The timeout is in seconds, the clock in milliseconds. A read that yields \<open>None\<close>
  is not equal to the expected integer.
\<close>

function wait_poll ::
  "plc \<Rightarrow> client \<Rightarrow> pystr \<Rightarrow> int \<Rightarrow> int \<Rightarrow> int \<Rightarrow> world \<Rightarrow> bool \<times> world" where
  "wait_poll p c register_name expected_value timeout start_time w =
     (if clock w - start_time < timeout * 1000 then
        (case read_register_by_name p c register_name (mark (Poll register_name) w) of
           (current_value, w') \<Rightarrow>
             if current_value = Some expected_value then (True, w')
             else wait_poll p c register_name expected_value timeout start_time (sleep 500 w'))
      else (False, w))"
  by pat_completeness auto
termination
proof (relation "measure (\<lambda>(p, c, register_name, expected_value, timeout, start_time, w).
    nat (start_time + timeout * 1000 - clock w))", goal_cases)
  case 1
  show ?case by simp
next
  case (2 p c register_name expected_value timeout start_time w current_value w')
  have "clock (mark (Poll register_name) w)
      \<le> clock (snd (read_register_by_name p c register_name (mark (Poll register_name) w)))"
    by (rule clock_read_register_by_name)
  with 2(2)[symmetric] have "clock w \<le> clock w'"
    by (simp add: mark_def)
  with 2(1) show ?case by (simp add: sleep_def)
qed

declare wait_poll.simps [simp del]

definition wait_for_register_value ::
  "plc \<Rightarrow> client \<Rightarrow> pystr \<Rightarrow> int \<Rightarrow> int \<Rightarrow> world \<Rightarrow> bool \<times> world" where
  "wait_for_register_value p c register_name expected_value timeout w =
     wait_poll p c register_name expected_value timeout (clock w) w"

text \<open>
  \<open>check_connection\<close>: one read of \<open>SYSTEM_STATUS\<close> on the transport, with no
  retry; the bare \<open>except\<close> turns every exception into \<open>False\<close>.
\<close>

definition check_connection :: "plc \<Rightarrow> client \<Rightarrow> world \<Rightarrow> bool \<times> world" where
  "check_connection p c w =
     (if \<not> is_connected c then (False, w)
      else
        (case REGISTER_MAP (py ''SYSTEM_STATUS'') of
           None \<Rightarrow> (False, w)
         | Some address \<Rightarrow>
             (case transport p (ReadReg address) w of
                (Value _, w') \<Rightarrow> (True, w')
              | (ErrorResponse, w') \<Rightarrow> (False, w')
              | (ModbusException, w') \<Rightarrow> (False, w'))))"

section \<open>base\_controller.py\<close>

text \<open>
  \<open>BaseController\<close> imports the process-wide \<open>modbus_client\<close>, the client \<open>c\<close>
  below. \<open>read_register_with_retry\<close> recurses on the attempts left, like the loops
  of the client; its pause between attempts is 0.5 s.
\<close>

fun read_register_with_retry ::
  "plc \<Rightarrow> client \<Rightarrow> pystr \<Rightarrow> nat \<Rightarrow> world \<Rightarrow> int option \<times> world" where
  "read_register_with_retry p c register_name 0 w = (None, w)"
| "read_register_with_retry p c register_name (Suc n) w =
     (case read_register_by_name p c register_name w of
        (Some v, w') \<Rightarrow> (Some v, w')
      | (None, w') \<Rightarrow>
          read_register_with_retry p c register_name n (if 0 < n then sleep 500 w' else w'))"

text \<open>
  \<open>wait_for_status_change\<close>: the same loop with a list of expected values and a
  caller-chosen \<open>check_interval\<close> (here in milliseconds). With an interval of 0 and a
  PLC that answers in no time the loop never ends, so the result is optional: \<open>None\<close>
  stands for a loop that does not return. Python's \<open>None\<close> result (the timeout) is
  \<open>Some (None, w)\<close>.
\<close>

partial_function (option) status_poll ::
  "plc \<Rightarrow> client \<Rightarrow> pystr \<Rightarrow> int list \<Rightarrow> int \<Rightarrow> nat \<Rightarrow> int \<Rightarrow> world
    \<Rightarrow> (int option \<times> world) option" where
  "status_poll p c register_name expected_values timeout check_interval start_time w =
     (if clock w - start_time < timeout * 1000 then
        (case read_register_with_retry p c register_name 1 (mark (Poll register_name) w) of
           (current_value, w') \<Rightarrow>
             if current_value \<noteq> None \<and> the current_value \<in> set expected_values
             then Some (current_value, w')
             else status_poll p c register_name expected_values timeout check_interval
                    start_time (sleep (int check_interval) w'))
      else Some (None, w))"

declare status_poll.simps [code]

definition wait_for_status_change ::
  "plc \<Rightarrow> client \<Rightarrow> pystr \<Rightarrow> int list \<Rightarrow> int \<Rightarrow> nat \<Rightarrow> world
    \<Rightarrow> (int option \<times> world) option" where
  "wait_for_status_change p c register_name expected_values timeout check_interval w =
     status_poll p c register_name expected_values timeout check_interval (clock w) w"

section \<open>door\_controller.py\<close>

text \<open>
  \<open>DoorController.register_name\<close>. The commands take an optional \<open>client\<close> and
  fall back to the process-wide one; \<open>position\<close> only changes the text of the log
  lines and is left out.
\<close>

definition door_register_name :: pystr where
  "door_register_name = py ''DOOR_CONTROL''"

definition open_door :: "plc \<Rightarrow> client \<Rightarrow> client option \<Rightarrow> int \<Rightarrow> world \<Rightarrow> bool \<times> world" where
  "open_door p c client timeout w =
     (let active_client = (case client of None \<Rightarrow> c | Some x \<Rightarrow> x) in
      case check_connection p active_client (mark DoorOpenStart w) of
        (connection_ok, w1) \<Rightarrow>
          if \<not> connection_ok then (False, w1)
          else
            (case write_register_by_name p active_client door_register_name DOOR_OPEN w1 of
               (written, w2) \<Rightarrow>
                 if \<not> written then (False, w2)
                 else wait_for_register_value p active_client door_register_name
                        DOOR_OPEN_COMPLETE timeout w2))"

definition close_door :: "plc \<Rightarrow> client \<Rightarrow> client option \<Rightarrow> int \<Rightarrow> world \<Rightarrow> bool \<times> world" where
  "close_door p c client timeout w =
     (let active_client = (case client of None \<Rightarrow> c | Some x \<Rightarrow> x) in
      case check_connection p active_client (mark DoorCloseStart w) of
        (connection_ok, w1) \<Rightarrow>
          if \<not> connection_ok then (False, w1)
          else
            (case write_register_by_name p active_client door_register_name DOOR_CLOSE w1 of
               (written, w2) \<Rightarrow>
                 if \<not> written then (False, w2)
                 else wait_for_register_value p active_client door_register_name
                        DOOR_CLOSE_COMPLETE timeout w2))"

section \<open>Digits of a Python string\<close>

text \<open>
  \<open>str.isdigit()\<close> and \<open>int()\<close> read the Unicode character database of the
  interpreter, which the model takes as a parameter: a code point is a decimal digit with
  a value (\<open>int\<close> accepts it), a digit that is not decimal, such as a superscript
  (\<open>isdigit\<close> accepts it, \<open>int\<close> raises \<open>ValueError\<close>), or no digit.
\<close>

datatype uclass = Decimal nat | Digit | NoDigit

type_synonym unicode_db = "nat \<Rightarrow> uclass"

definition isdigit :: "unicode_db \<Rightarrow> pystr \<Rightarrow> bool" where
  "isdigit u s = (s \<noteq> [] \<and> list_all (\<lambda>ch. u ch \<noteq> NoDigit) s)"

fun decimal_value :: "unicode_db \<Rightarrow> int \<Rightarrow> pystr \<Rightarrow> int option" where
  "decimal_value u acc [] = Some acc"
| "decimal_value u acc (ch # s) =
     (case u ch of
        Decimal d \<Rightarrow> decimal_value u (10 * acc + int d) s
      | Digit \<Rightarrow> None
      | NoDigit \<Rightarrow> None)"

text \<open>
  \<open>int(s)\<close> for a string \<open>s\<close> that has passed \<open>isdigit()\<close>: no sign, blank or
  underscore is left to strip, so the conversion succeeds exactly when every character is
  a decimal digit. \<open>None\<close> is the \<open>ValueError\<close>.
\<close>

definition int_of_digits :: "unicode_db \<Rightarrow> pystr \<Rightarrow> int option" where
  "int_of_digits u s = (if s = [] then None else decimal_value u 0 s)"





section \<open>drone\_storage\_controller.py\<close>

text \<open>
  The methods of \<open>DroneStorageController\<close> name a module-level \<open>modbus_client\<close>
  that the file never imports (\<open>door_controller.py\<close> and \<open>base_controller.py\<close>
  import it from \<open>modbus_client\<close>). What the name denotes in the module is the
  parameter \<open>g\<close>: \<open>Some m\<close> when it is bound to a client \<open>m\<close>, and \<open>None\<close>
  when it is unbound, as in the file as it stands; then every use raises
  \<open>NameError\<close>, which the enclosing \<open>except Exception\<close> turns into the failure
  value. The inherited \<open>read_register_with_retry\<close> and the door controller use the
  process-wide client \<open>c\<close> in either case.
\<close>

definition landing_pad_register :: pystr where
  "landing_pad_register = py ''LANDING_PAD_STATUS''"
definition package_op_register :: pystr where
  "package_op_register = py ''DRONE_PACKAGE_OP''"
definition servo_register :: pystr where
  "servo_register = py ''DRONE_SERVO''"
definition storage_status_register :: pystr where
  "storage_status_register = py ''STORAGE_STATUS''"
definition store_pos_register :: pystr where
  "store_pos_register = py ''DRONE_STORE_POS''"
definition pickup_code_front_register :: pystr where
  "pickup_code_front_register = py ''PICKUP_CODE_FRONT''"
definition pickup_code_rear_register :: pystr where
  "pickup_code_rear_register = py ''PICKUP_CODE_REAR''"

definition check_storage_capacity :: "plc \<Rightarrow> client \<Rightarrow> world \<Rightarrow> bool option \<times> world" where
  "check_storage_capacity p c w =
     (case read_register_with_retry p c storage_status_register 3 w of
        (None, w') \<Rightarrow> (None, w')
      | (Some status, w') \<Rightarrow>
          if status = STORAGE_FULL then (Some False, w')
          else if status = STORAGE_AVAILABLE then (Some True, w')
          else (None, w'))"

definition confirm_drone_landing :: "plc \<Rightarrow> client option \<Rightarrow> int \<Rightarrow> world \<Rightarrow> bool \<times> world" where
  "confirm_drone_landing p g timeout w =
     (case g of
        None \<Rightarrow> (False, w)
      | Some m \<Rightarrow>
          (case write_register_by_name p m landing_pad_register DRONE_PRESENT w of
             (written, w1) \<Rightarrow>
               if \<not> written then (False, w1)
               else wait_for_register_value p m landing_pad_register
                      DRONE_PRESENT_CONFIRM timeout w1))"

definition confirm_drone_takeoff :: "plc \<Rightarrow> client option \<Rightarrow> int \<Rightarrow> world \<Rightarrow> bool \<times> world" where
  "confirm_drone_takeoff p g timeout w =
     (case g of
        None \<Rightarrow> (False, w)
      | Some m \<Rightarrow>
          (case write_register_by_name p m landing_pad_register DRONE_ABSENT w of
             (written, w1) \<Rightarrow>
               if \<not> written then (False, w1)
               else wait_for_register_value p m landing_pad_register
                      DRONE_ABSENT_CONFIRM timeout w1))"

text \<open>
  \<open>set_pickup_code\<close>: the format check, then both \<open>int\<close> conversions, then the two
  writes. A \<open>ValueError\<close> of a conversion is caught like every other exception.
\<close>

definition set_pickup_code ::
  "unicode_db \<Rightarrow> plc \<Rightarrow> client option \<Rightarrow> pystr \<Rightarrow> world \<Rightarrow> bool \<times> world" where
  "set_pickup_code u p g pickup_code w =
     (if length pickup_code \<noteq> 6 \<or> \<not> isdigit u pickup_code then (False, w)
      else
        (case int_of_digits u (take 3 pickup_code) of
           None \<Rightarrow> (False, w)
         | Some front_three \<Rightarrow>
             (case int_of_digits u (drop 3 pickup_code) of
                None \<Rightarrow> (False, w)
              | Some rear_three \<Rightarrow>
                  (case g of
                     None \<Rightarrow> (False, w)
                   | Some m \<Rightarrow>
                       (case write_register_by_name p m pickup_code_front_register
                               front_three w of
                          (front_written, w1) \<Rightarrow>
                            if \<not> front_written then (False, w1)
                            else
                              (case write_register_by_name p m pickup_code_rear_register
                                      rear_three w1 of
                                 (rear_written, w2) \<Rightarrow>
                                   if \<not> rear_written then (False, w2)
                                   else (True, w2)))))))"

definition start_storage_operation :: "plc \<Rightarrow> client option \<Rightarrow> world \<Rightarrow> bool \<times> world" where
  "start_storage_operation p g w =
     (case g of
        None \<Rightarrow> (False, w)
      | Some m \<Rightarrow> write_register_by_name p m package_op_register STORE_PACKAGE w)"

definition control_servo ::
  "plc \<Rightarrow> client option \<Rightarrow> pystr \<Rightarrow> int \<Rightarrow> world \<Rightarrow> bool \<times> world" where
  "control_servo p g action timeout w =
     (if action \<noteq> py ''open'' \<and> action \<noteq> py ''close'' then (False, w)
      else
        (case g of
           None \<Rightarrow> (False, w)
         | Some m \<Rightarrow>
             if action = py ''open'' then
               (case wait_for_register_value p m servo_register SERVO_CAN_OPEN timeout w of
                  (may_open, w1) \<Rightarrow>
                    if \<not> may_open then (False, w1)
                    else
                      (case write_register_by_name p m servo_register SERVO_OPEN w1 of
                         (written, w2) \<Rightarrow>
                           if \<not> written then (False, w2)
                           else wait_for_register_value p m servo_register
                                  SERVO_OPEN_CONFIRM timeout w2))
             else
               (case wait_for_register_value p m servo_register SERVO_CAN_CLOSE timeout w of
                  (may_close, w1) \<Rightarrow>
                    if \<not> may_close then (False, w1)
                    else
                      (case write_register_by_name p m servo_register SERVO_CLOSE w1 of
                         (written, w2) \<Rightarrow>
                           if \<not> written then (False, w2)
                           else wait_for_register_value p m servo_register
                                  SERVO_CLOSE_CONFIRM timeout w2))))"

definition get_storage_position :: "plc \<Rightarrow> client option \<Rightarrow> world \<Rightarrow> int option \<times> world" where
  "get_storage_position p g w =
     (case g of
        None \<Rightarrow> (None, w)
      | Some m \<Rightarrow>
          (case read_register_by_name p m store_pos_register w of
             (None, w') \<Rightarrow> (None, w')
           | (Some position_code, w') \<Rightarrow>
               (if position_code = POSITION_1 then Some 1
                else if position_code = POSITION_2 then Some 2
                else if position_code = POSITION_3 then Some 3
                else None, w')))"

text \<open>
  \<open>execute_storage_process\<close>, step by step as in the source. The calls use the default
  timeouts of the methods (door 30 s, landing and takeoff 60 s, servo 30 s). The
  \<open>except Exception\<close> of the method is reached only by the \<open>NameError\<close> of step 7;
  its recovery is a takeoff confirmation and a door close.
\<close>

definition execute_storage_process ::
  "unicode_db \<Rightarrow> plc \<Rightarrow> client \<Rightarrow> client option \<Rightarrow> pystr \<Rightarrow> world
    \<Rightarrow> (bool \<times> int option) \<times> world" where
  "execute_storage_process u p c g pickup_code w =
     (case check_storage_capacity p c w of (capacity, w1) \<Rightarrow>
      if capacity \<noteq> Some True then ((False, None), w1)
      else
      case open_door p c None 30 w1 of (opened, w2) \<Rightarrow>
      if \<not> opened then ((False, None), w2)
      else
      case confirm_drone_landing p g 60 w2 of (landed, w3) \<Rightarrow>
      if \<not> landed then
        (case close_door p c None 30 w3 of (_, w4) \<Rightarrow> ((False, None), w4))
      else
      case start_storage_operation p g w3 of (started, w4) \<Rightarrow>
      if \<not> started then
        (case confirm_drone_takeoff p g 60 w4 of (_, w5) \<Rightarrow>
         case close_door p c None 30 w5 of (_, w6) \<Rightarrow> ((False, None), w6))
      else
      case set_pickup_code u p g pickup_code w4 of (code_set, w5) \<Rightarrow>
      if \<not> code_set then
        (case confirm_drone_takeoff p g 60 w5 of (_, w6) \<Rightarrow>
         case close_door p c None 30 w6 of (_, w7) \<Rightarrow> ((False, None), w7))
      else
      case control_servo p g (py ''open'') 30 w5 of (servo_opened, w6) \<Rightarrow>
      if \<not> servo_opened then
        (case confirm_drone_takeoff p g 60 w6 of (_, w7) \<Rightarrow>
         case close_door p c None 30 w7 of (_, w8) \<Rightarrow> ((False, None), w8))
      else
      case g of
        None \<Rightarrow>
          (case confirm_drone_takeoff p g 60 (sleep 2000 w6) of (_, w7) \<Rightarrow>
           case close_door p c None 30 w7 of (_, w8) \<Rightarrow> ((False, None), w8))
      | Some m \<Rightarrow>
      case read_register_by_name p m package_op_register (sleep 2000 w6) of
        (package_status, w7) \<Rightarrow>
      case
        (if package_status = Some PICKUP_IN_PROGRESS then
           (case control_servo p g (py ''close'') 30 w7 of (servo_closed, w8) \<Rightarrow>
            if \<not> servo_closed then (False, w8)
            else wait_for_register_value p m package_op_register PICKUP_COMPLETE 60 w8)
         else if package_status = Some NO_PICKUP_COMPLETE then
           control_servo p g (py ''close'') 30 w7
         else (True, w7))
      of (branch_done, w9) \<Rightarrow>
      if \<not> branch_done then ((False, None), w9)
      else
      case confirm_drone_takeoff p g 60 w9 of (taken_off, w10) \<Rightarrow>
      if \<not> taken_off then ((False, None), w10)
      else
      case close_door p c None 30 w10 of (door_closed, w11) \<Rightarrow>
      if \<not> door_closed then ((False, None), w11)
      else
      case get_storage_position p g w11 of (storage_position, w12) \<Rightarrow>
        ((True, storage_position), w12))"

section \<open>user\_send\_controller.py\<close>

text \<open>
  \<open>UserSendController.set_send_code\<close> is \<open>set_pickup_code\<close> on the two send-code
  registers; the module names \<open>modbus_client\<close> without importing it in the same way.
\<close>

definition send_code_front_register :: pystr where
  "send_code_front_register = py ''SEND_CODE_FRONT''"
definition send_code_rear_register :: pystr where
  "send_code_rear_register = py ''SEND_CODE_REAR''"

definition set_send_code ::
  "unicode_db \<Rightarrow> plc \<Rightarrow> client option \<Rightarrow> pystr \<Rightarrow> world \<Rightarrow> bool \<times> world" where
  "set_send_code u p g send_code w =
     (if length send_code \<noteq> 6 \<or> \<not> isdigit u send_code then (False, w)
      else
        (case int_of_digits u (take 3 send_code) of
           None \<Rightarrow> (False, w)
         | Some front_three \<Rightarrow>
             (case int_of_digits u (drop 3 send_code) of
                None \<Rightarrow> (False, w)
              | Some rear_three \<Rightarrow>
                  (case g of
                     None \<Rightarrow> (False, w)
                   | Some m \<Rightarrow>
                       (case write_register_by_name p m send_code_front_register
                               front_three w of
                          (front_written, w1) \<Rightarrow>
                            if \<not> front_written then (False, w1)
                            else
                              (case write_register_by_name p m send_code_rear_register
                                      rear_three w1 of
                                 (rear_written, w2) \<Rightarrow>
                                   if \<not> rear_written then (False, w2)
                                   else (True, w2)))))))"

section \<open>Concrete runs\<close>

text \<open>
  A scripted PLC in the manner of a fake transport: it answers the accesses with the
  replies of a list, in order and without delay, and with an error response once the
  list is used up. \<open>world0\<close> is the state before a run.
\<close>

definition plc_script :: "reply list \<Rightarrow> plc" where
  "plc_script rs =
     \<lparr>reply_of = (\<lambda>n. if n < length rs then rs ! n else ErrorResponse),
      latency = (\<lambda>n. 0)\<rparr>"

text \<open>
  A PLC whose first three replies are failures and whose fourth is the value 11.
\<close>

definition plc_late :: plc where
  "plc_late = plc_script [ErrorResponse, ModbusException, ErrorResponse, Value 11]"

definition world0 :: world where
  "world0 = \<lparr>clock = 0, accesses = 0, trace = []\<rparr>"

definition client_on :: client where
  "client_on = \<lparr>is_connected = True, retry_count = 3\<rparr>"

definition client_off :: client where
  "client_off = \<lparr>is_connected = False, retry_count = 3\<rparr>"

text \<open>
  An excerpt of the Unicode character database, enough for the concrete runs: the ASCII
  digits and the Arabic-Indic digits U+0660 to U+0669 are decimal digits with the values 0
  to 9; the superscripts U+00B2, U+00B3 and U+00B9 are digits that are not decimal.
\<close>

definition unicode_excerpt :: unicode_db where
  "unicode_excerpt ch =
     (if 0x30 \<le> ch \<and> ch \<le> 0x39 then Decimal (ch - 0x30)
      else if 0x660 \<le> ch \<and> ch \<le> 0x669 then Decimal (ch - 0x660)
      else if ch = 0xB2 \<or> ch = 0xB3 \<or> ch = 0xB9 then Digit
      else NoDigit)"

text \<open>
  A PLC that answers every step of a storage run at once and as the step expects, except
  that the package-operation register reads 111 (\<open>STORE_COMPLETE\<close>) at the branch,
  which is neither of the two branch codes; and the observations of that run.
\<close>

definition plc_unknown_branch :: plc where
  "plc_unknown_branch = plc_script
     [Value 20, Value 0, Value 0, Value 11, Value 0, Value 11, Value 0, Value 0, Value 0,
      Value 1, Value 0, Value 11, Value 111, Value 0, Value 21, Value 0, Value 0, Value 21,
      Value 101]"


text \<open>
  A PLC that lets the door open and then rejects the three attempts to write the
  "drone present" code; it accepts the door close that follows.
\<close>

definition plc_no_landing :: plc where
  "plc_no_landing = plc_script
     [Value 20, Value 0, Value 0, Value 11, ErrorResponse, ErrorResponse, ErrorResponse,
      Value 0, Value 0, Value 21]"

section \<open>Evaluating concrete runs\<close>

text \<open>The addresses of the registers the controllers name, looked up once.\<close>

lemma register_addresses:
  "REGISTER_MAP door_register_name = Some 0xBB8"
  "REGISTER_MAP landing_pad_register = Some 0xBB9"
  "REGISTER_MAP package_op_register = Some 0xBBA"
  "REGISTER_MAP servo_register = Some 0xBBB"
  "REGISTER_MAP store_pos_register = Some 0xBBC"
  "REGISTER_MAP storage_status_register = Some 0xBBE"
  "REGISTER_MAP pickup_code_front_register = Some 0xBC1"
  "REGISTER_MAP pickup_code_rear_register = Some 0xBC2"
  "REGISTER_MAP send_code_front_register = Some 0xBD0"
  "REGISTER_MAP send_code_rear_register = Some 0xBD1"
  "REGISTER_MAP (py ''SYSTEM_STATUS'') = Some 0xBCD"
  by (simp_all add: REGISTER_MAP_def py_def door_register_name_def landing_pad_register_def
      package_op_register_def servo_register_def store_pos_register_def
      storage_status_register_def pickup_code_front_register_def
      pickup_code_rear_register_def send_code_front_register_def send_code_rear_register_def)

lemmas run_simps =
  execute_storage_process_def check_storage_capacity_def open_door_def close_door_def
  confirm_drone_landing_def confirm_drone_takeoff_def start_storage_operation_def
  set_pickup_code_def set_send_code_def control_servo_def get_storage_position_def
  wait_for_register_value_def wait_poll.simps
  wait_for_status_change_def status_poll.simps
  read_register_by_name_def write_register_by_name_def
  read_holding_register_def write_holding_register_def check_connection_def
  transport_def sleep_def mark_def register_addresses
  plc_script_def plc_late_def plc_unknown_branch_def plc_no_landing_def
  client_on_def client_off_def world0_def operation_codes
  isdigit_def int_of_digits_def unicode_excerpt_def numeral_3_eq_3



section \<open>What a register operation adds to the trace\<close>

text \<open>
  \<open>extends P w w'\<close>: the trace of \<open>w'\<close> is that of \<open>w\<close> followed by events that
  all satisfy \<open>P\<close>.
\<close>

definition extends :: "(event \<Rightarrow> bool) \<Rightarrow> world \<Rightarrow> world \<Rightarrow> bool" where
  "extends P w w' = (\<exists>es. trace w' = trace w @ es \<and> list_all P es)"

lemma extends_refl: "extends P w w"
  by (simp add: extends_def)

lemma extends_trans: "extends P w w' \<Longrightarrow> extends P w' w'' \<Longrightarrow> extends P w w''"
  by (auto simp: extends_def)

lemma extends_mono: "extends P w w' \<Longrightarrow> (\<And>e. P e \<Longrightarrow> Q e) \<Longrightarrow> extends Q w w'"
  by (auto simp: extends_def list_all_iff)

lemma extends_sleep: "extends P w w' \<Longrightarrow> extends P w (sleep ms w')"
  by (simp add: extends_def sleep_def)

lemma extends_mark: "P e \<Longrightarrow> extends P w (mark e w)"
  by (simp add: extends_def mark_def)

lemma extends_transport: "P e \<Longrightarrow> extends P w (snd (transport p e w))"
  by (simp add: extends_def transport_def)

lemma extends_count:
  "extends P w w' \<Longrightarrow> \<not> P e \<Longrightarrow> count_list (trace w') e = count_list (trace w) e"
  by (auto simp: extends_def list_all_iff count_list_0_iff)

lemma extends_read_attempts:
  "extends (\<lambda>e. e = ReadReg a) w (snd (read_attempts p a n w))"
proof (induction n arbitrary: w)
  case 0
  show ?case by (simp add: extends_refl)
next
  case (Suc n)
  let ?w1 = "snd (transport p (ReadReg a) w)"
  have w1: "extends (\<lambda>e. e = ReadReg a) w ?w1"
    by (simp add: extends_transport)
  show ?case
  proof (cases "reply_of p (accesses w)")
    case (Value v)
    with w1 show ?thesis by (simp add: transport_def)
  next
    case ErrorResponse
    then have "read_attempts p a (Suc n) w = read_attempts p a n ?w1"
      by (simp add: transport_def)
    with extends_trans[OF w1 Suc.IH[of ?w1]] show ?thesis by simp
  next
    case ModbusException
    then have eq: "read_attempts p a (Suc n) w =
        read_attempts p a n (if 0 < n then sleep 100 ?w1 else ?w1)"
      by (simp add: transport_def)
    have "extends (\<lambda>e. e = ReadReg a) w (if 0 < n then sleep 100 ?w1 else ?w1)"
      using w1 by (simp add: extends_sleep)
    from extends_trans[OF this Suc.IH] eq show ?thesis by simp
  qed
qed

lemma extends_write_attempts:
  "extends (\<lambda>e. e = WriteReg a v) w (snd (write_attempts p a v n w))"
proof (induction n arbitrary: w)
  case 0
  show ?case by (simp add: extends_refl)
next
  case (Suc n)
  let ?w1 = "snd (transport p (WriteReg a v) w)"
  have w1: "extends (\<lambda>e. e = WriteReg a v) w ?w1"
    by (simp add: extends_transport)
  show ?case
  proof (cases "reply_of p (accesses w)")
    case (Value x)
    with w1 show ?thesis by (simp add: transport_def)
  next
    case ErrorResponse
    then have "write_attempts p a v (Suc n) w = write_attempts p a v n ?w1"
      by (simp add: transport_def)
    with extends_trans[OF w1 Suc.IH[of ?w1]] show ?thesis by simp
  next
    case ModbusException
    then have eq: "write_attempts p a v (Suc n) w =
        write_attempts p a v n (if 0 < n then sleep 100 ?w1 else ?w1)"
      by (simp add: transport_def)
    have "extends (\<lambda>e. e = WriteReg a v) w (if 0 < n then sleep 100 ?w1 else ?w1)"
      using w1 by (simp add: extends_sleep)
    from extends_trans[OF this Suc.IH] eq show ?thesis by simp
  qed
qed

lemma extends_read_register_by_name:
  "extends (\<lambda>e. \<exists>a. REGISTER_MAP name = Some a \<and> e = ReadReg a) w
     (snd (read_register_by_name p c name w))"
  by (auto simp: read_register_by_name_def read_holding_register_def extends_refl
      split: option.split intro: extends_mono[OF extends_read_attempts])

lemma extends_write_register_by_name:
  "extends (\<lambda>e. \<exists>a. REGISTER_MAP name = Some a \<and> e = WriteReg a v) w
     (snd (write_register_by_name p c name v w))"
  by (auto simp: write_register_by_name_def write_holding_register_def extends_refl
      split: option.split intro: extends_mono[OF extends_write_attempts])

section \<open>The retry loop of a single read\<close>

text \<open>
  The attempts of \<open>read_attempts\<close>, counted: \<open>k\<close> reads of the address reach the
  transport, at most \<open>n\<close>. A value is the reply to the last of them, every earlier
  attempt having failed; \<open>None\<close> comes after \<open>n\<close> failed attempts.
\<close>

lemma read_attempts_outcome:
  "read_attempts p a n w = (r, w') \<Longrightarrow>
   \<exists>k\<le>n. trace w' = trace w @ replicate k (ReadReg a) \<and> accesses w' = accesses w + k
     \<and> (case r of
           Some v \<Rightarrow> 0 < k \<and> reply_of p (accesses w + (k - 1)) = Value v
             \<and> (\<forall>i<k - 1. \<forall>u. reply_of p (accesses w + i) \<noteq> Value u)
         | None \<Rightarrow> k = n \<and> (\<forall>i<k. \<forall>u. reply_of p (accesses w + i) \<noteq> Value u))"
proof (induction n arbitrary: w)
  case 0
  then show ?case by auto
next
  case (Suc n)
  show ?case
  proof (cases "\<exists>v. reply_of p (accesses w) = Value v")
    case True
    then obtain v where v: "reply_of p (accesses w) = Value v" by blast
    with Suc.prems have "r = Some v" "w' = snd (transport p (ReadReg a) w)"
      by (auto simp: transport_def)
    then show ?thesis using v
      by (intro exI[of _ 1]) (auto simp: transport_def)
  next
    case False
    define w1 where "w1 = snd (transport p (ReadReg a) w)"
    define w2 where
      "w2 = (if reply_of p (accesses w) = ModbusException \<and> 0 < n then sleep 100 w1 else w1)"
    have rec: "read_attempts p a n w2 = (r, w')"
      using Suc.prems False
      by (cases "reply_of p (accesses w)") (auto simp: transport_def w1_def w2_def)
    have w2: "trace w2 = trace w @ [ReadReg a]" "accesses w2 = Suc (accesses w)"
      by (auto simp: w2_def w1_def transport_def sleep_def)
    from Suc.IH[OF rec] obtain k where k: "k \<le> n"
      "trace w' = trace w2 @ replicate k (ReadReg a)" "accesses w' = accesses w2 + k"
      "(case r of
           Some v \<Rightarrow> 0 < k \<and> reply_of p (accesses w2 + (k - 1)) = Value v
             \<and> (\<forall>i<k - 1. \<forall>u. reply_of p (accesses w2 + i) \<noteq> Value u)
         | None \<Rightarrow> k = n \<and> (\<forall>i<k. \<forall>u. reply_of p (accesses w2 + i) \<noteq> Value u))"
      by blast
    have fails: "\<forall>i<m. \<forall>u. reply_of p (accesses w2 + i) \<noteq> Value u \<Longrightarrow>
        \<forall>i<Suc m. \<forall>u. reply_of p (accesses w + i) \<noteq> Value u" for m
      using False w2(2) by (auto simp: less_Suc_eq_0_disj)
    show ?thesis
    proof (intro exI[of _ "Suc k"] conjI)
      show "Suc k \<le> Suc n" using k(1) by simp
      show "trace w' = trace w @ replicate (Suc k) (ReadReg a)" using k(2) w2(1) by simp
      show "accesses w' = accesses w + Suc k" using k(3) w2(2) by simp
      show "case r of
           Some v \<Rightarrow> 0 < Suc k \<and> reply_of p (accesses w + (Suc k - 1)) = Value v
             \<and> (\<forall>i<Suc k - 1. \<forall>u. reply_of p (accesses w + i) \<noteq> Value u)
         | None \<Rightarrow> Suc k = Suc n \<and> (\<forall>i<Suc k. \<forall>u. reply_of p (accesses w + i) \<noteq> Value u)"
      proof (cases r)
        case None
        with k(4) fails[of k] show ?thesis by simp
      next
        case (Some v)
        with k(4) have "0 < k" "reply_of p (accesses w2 + (k - 1)) = Value v"
          "\<forall>i<k - 1. \<forall>u. reply_of p (accesses w2 + i) \<noteq> Value u" by auto
        with fails[of "k - 1"] w2(2) Some show ?thesis by simp
      qed
    qed
  qed
qed

text \<open>
  Claim C7, as the code has it. On a connected client \<open>read_holding_register\<close> makes
  \<open>k\<close> read attempts on the transport, at most \<open>retry_count\<close>; a returned value is
  the reply to the last attempt made, all attempts before it having failed, so it is the
  first successful attempt and none follows it; \<open>None\<close> is returned after exactly
  \<open>retry_count\<close> failed attempts. On a client that is not connected the guard returns
  \<open>None\<close> at once and no attempt is made.
\<close>

theorem read_holding_register_retry:
  assumes "read_holding_register p c address w = (r, w')"
  shows "if is_connected c then
           (\<exists>k\<le>retry_count c.
              trace w' = trace w @ replicate k (ReadReg address)
              \<and> accesses w' = accesses w + k
              \<and> (case r of
                    Some v \<Rightarrow>
                      0 < k \<and> reply_of p (accesses w + (k - 1)) = Value v
                      \<and> (\<forall>i<k - 1. \<forall>u. reply_of p (accesses w + i) \<noteq> Value u)
                  | None \<Rightarrow>
                      k = retry_count c
                      \<and> (\<forall>i<k. \<forall>u. reply_of p (accesses w + i) \<noteq> Value u)))
         else r = None \<and> w' = w"
proof (cases "is_connected c")
  case True
  with assms have "read_attempts p address (retry_count c) w = (r, w')"
    by (simp add: read_holding_register_def)
  from read_attempts_outcome[OF this] True show ?thesis by simp
next
  case False
  with assms show ?thesis by (simp add: read_holding_register_def)
qed

theorem read_holding_register_retry_witness:
  "read_holding_register (plc_script [ErrorResponse, ModbusException, Value 7, Value 8])
       client_on 0xBBE world0
     = (Some 7, \<lparr>clock = 100, accesses = 3,
                 trace = [ReadReg 0xBBE, ReadReg 0xBBE, ReadReg 0xBBE]\<rparr>)
   \<and> (\<exists>k\<le>retry_count client_on.
         [ReadReg 0xBBE, ReadReg 0xBBE, ReadReg 0xBBE] = replicate k (ReadReg 0xBBE)
         \<and> 3 = k
         \<and> 0 < k
         \<and> reply_of (plc_script [ErrorResponse, ModbusException, Value 7, Value 8]) (k - 1)
             = Value 7
         \<and> (\<forall>i<k - 1. \<forall>u.
               reply_of (plc_script [ErrorResponse, ModbusException, Value 7, Value 8]) i
                 \<noteq> Value u))"
proof -
  have run: "read_holding_register
       (plc_script [ErrorResponse, ModbusException, Value 7, Value 8]) client_on 0xBBE world0
     = (Some 7, \<lparr>clock = 100, accesses = 3,
                 trace = [ReadReg 0xBBE, ReadReg 0xBBE, ReadReg 0xBBE]\<rparr>)"
    by (simp add: read_holding_register_def client_on_def plc_script_def world0_def
        transport_def sleep_def numeral_3_eq_3)
  from read_holding_register_retry[OF run] run show ?thesis
    by (simp add: client_on_def world0_def)
qed

text \<open>
  The claim as written fails on a client that is not connected: the PLC would answer the
  first attempt with a value, yet \<open>None\<close> is returned and the trace stays empty, so
  the failure is not preceded by \<open>retry_count = 3\<close> failed attempts.
\<close>

theorem read_holding_register_retry_counterexample:
  "read_holding_register (plc_script [Value 7, Value 7, Value 7]) client_off 0xBBE world0
     = (None, world0)
   \<and> trace world0 = []
   \<and> retry_count client_off = 3"
  by (simp add: read_holding_register_def client_off_def world0_def)

section \<open>Unknown register names\<close>

text \<open>
  Claim C10. For a register name that is not a key of \<open>REGISTER_MAP\<close>,
  \<open>read_register_by_name\<close> returns \<open>None\<close> and \<open>write_register_by_name\<close>
  returns \<open>False\<close>, and the state after the call is the state before it: no access
  reaches the transport, the clock does not move, and so no register of the PLC changes.
\<close>

theorem unknown_register_name_rejected:
  assumes "register_name \<notin> dom REGISTER_MAP"
  shows "read_register_by_name p c register_name w = (None, w)
       \<and> write_register_by_name p c register_name v w = (False, w)"
proof -
  from assms have "REGISTER_MAP register_name = None"
    by (simp add: domIff)
  then show ?thesis
    by (simp add: read_register_by_name_def write_register_by_name_def)
qed

theorem unknown_register_name_rejected_witness:
  "py ''DOOR_STATUS'' \<notin> dom REGISTER_MAP
   \<and> read_register_by_name (plc_script [Value 7]) client_on (py ''DOOR_STATUS'') world0
       = (None, world0)
   \<and> write_register_by_name (plc_script [Value 7]) client_on (py ''DOOR_STATUS'') 10 world0
       = (False, world0)"
proof -
  have unknown: "py ''DOOR_STATUS'' \<notin> dom REGISTER_MAP"
    by (simp add: domIff REGISTER_MAP_def py_def)
  from unknown_register_name_rejected[OF unknown] unknown show ?thesis
    by simp
qed

section \<open>The wait loops\<close>

lemma read_attempts_value:
  "read_attempts p a n w = (Some v, w') \<Longrightarrow> \<exists>i. reply_of p i = Value v"
  using read_attempts_outcome[of p a n w "Some v" w'] by auto

lemma read_register_by_name_value:
  "read_register_by_name p c name w = (Some v, w') \<Longrightarrow> \<exists>i. reply_of p i = Value v"
  by (auto simp: read_register_by_name_def read_holding_register_def
      split: option.splits if_splits dest: read_attempts_value)

text \<open>The events of a wait on a register: the poll marks and the reads of its address.\<close>

definition polling :: "pystr \<Rightarrow> event \<Rightarrow> bool" where
  "polling name e = (e = Poll name \<or> (\<exists>a. REGISTER_MAP name = Some a \<and> e = ReadReg a))"

lemma extends_read_polling:
  "extends (polling name) w (snd (read_register_by_name p c name w))"
  by (rule extends_mono[OF extends_read_register_by_name]) (auto simp: polling_def)

lemma count_read_register_by_name:
  "count_list (trace (snd (read_register_by_name p c name w))) (Poll x)
     = count_list (trace w) (Poll x)"
  by (rule extends_count[OF extends_read_register_by_name]) simp

text \<open>
  The number of polls that fit into the time \<open>R\<close> left before the deadline, at one
  poll every \<open>I\<close> milliseconds, is \<open>R / I\<close> rounded up.
\<close>

lemma ceil_step:
  fixes R R2 I :: int
  assumes "0 < I" "0 < R" "R2 \<le> R - I"
  shows "1 + max 0 ((R2 + I - 1) div I) \<le> max 0 ((R + I - 1) div I)"
proof -
  have a: "(R2 + I - 1) div I \<le> (R - 1) div I"
    using assms by (intro zdiv_mono1) auto
  have b: "(R + I - 1) div I = (R - 1) div I + 1"
    using assms(1) div_add_self2[of I "R - 1"] by (simp add: algebra_simps)
  have c: "0 \<le> (R - 1) div I"
    using assms by (simp add: pos_imp_zdiv_nonneg_iff)
  from a b c show ?thesis by simp
qed

lemma ceil_first:
  fixes R I :: int
  assumes "0 < I" "0 < R"
  shows "1 \<le> max 0 ((R + I - 1) div I)"
  using ceil_step[OF assms, of "R - I"] by simp

lemma ceil_start:
  fixes T I :: int
  assumes "0 < I"
  shows "max 0 ((T + I - 1) div I) \<le> int (nat (T div I + 1))"
proof -
  have "(T + I - 1) div I \<le> (T + I) div I"
    using assms by (intro zdiv_mono1) auto
  also have "\<dots> = T div I + 1"
    using assms by simp
  finally show ?thesis by simp
qed

lemma wait_poll_props:
  "wait_poll p c name e T s w = (r, w') \<Longrightarrow>
     clock w \<le> clock w'
     \<and> extends (polling name) w w'
     \<and> int (count_list (trace w') (Poll name))
         \<le> int (count_list (trace w) (Poll name))
            + max 0 ((s + T * 1000 - clock w + 500 - 1) div 500)
     \<and> (\<not> r \<longrightarrow> T * 1000 \<le> clock w' - s)
     \<and> (r \<longrightarrow> (\<exists>i. reply_of p i = Value e))"
proof (induction p c name e T s w rule: wait_poll.induct)
  case (1 p c name e T s w)
  show ?case
  proof (cases "clock w - s < T * 1000")
    case False
    with "1.prems" have "r = False" "w' = w" by (simp_all add: wait_poll.simps)
    with False show ?thesis by (simp add: extends_refl)
  next
    case True
    obtain cur w1 where rd: "read_register_by_name p c name (mark (Poll name) w) = (cur, w1)"
      by (cases "read_register_by_name p c name (mark (Poll name) w)")
    have w1_clock: "clock w \<le> clock w1"
      using clock_read_register_by_name[of "mark (Poll name) w" p c name] rd
      by (simp add: mark_def)
    have "extends (polling name) w (mark (Poll name) w)"
      by (simp add: extends_mark polling_def)
    moreover have "extends (polling name) (mark (Poll name) w) w1"
      using extends_read_polling[of name "mark (Poll name) w" p c] rd by simp
    ultimately have w1_ext: "extends (polling name) w w1"
      by (rule extends_trans)
    have w1_count: "count_list (trace w1) (Poll name) = count_list (trace w) (Poll name) + 1"
      using count_read_register_by_name[of p c name "mark (Poll name) w" name] rd
      by (simp add: mark_def)
    have pos: "0 < s + T * 1000 - clock w" using True by simp
    show ?thesis
    proof (cases "cur = Some e")
      case yes: True
      with True rd "1.prems" have "r = True" "w' = w1" by (simp_all add: wait_poll.simps)
      moreover have "\<exists>i. reply_of p i = Value e"
        using rd yes read_register_by_name_value by blast
      moreover have "1 \<le> max 0 ((s + T * 1000 - clock w + 500 - 1) div 500)"
        using ceil_first[OF _ pos, of 500] by simp
      ultimately show ?thesis using w1_clock w1_ext w1_count by simp
    next
      case no: False
      with True rd "1.prems" have rec: "wait_poll p c name e T s (sleep 500 w1) = (r, w')"
        by (simp add: wait_poll.simps)
      note IH = "1.IH"[OF True rd[symmetric] no rec]
      have step: "1 + max 0 ((s + T * 1000 - clock (sleep 500 w1) + 500 - 1) div 500)
          \<le> max 0 ((s + T * 1000 - clock w + 500 - 1) div 500)"
        using ceil_step[OF _ pos, of 500 "s + T * 1000 - clock (sleep 500 w1)"] w1_clock
        by (simp add: sleep_def)
      have "clock w \<le> clock w'" using IH w1_clock by (simp add: sleep_def)
      moreover have "extends (polling name) w w'"
        using IH extends_trans[OF extends_sleep[OF w1_ext, of 500]] by blast
      moreover have "int (count_list (trace w') (Poll name))
         \<le> int (count_list (trace w) (Poll name))
            + max 0 ((s + T * 1000 - clock w + 500 - 1) div 500)"
      proof -
        from IH have "int (count_list (trace w') (Poll name))
            \<le> int (count_list (trace (sleep 500 w1)) (Poll name))
               + max 0 ((s + T * 1000 - clock (sleep 500 w1) + 500 - 1) div 500)"
          by blast
        moreover have "count_list (trace (sleep 500 w1)) (Poll name)
            = count_list (trace w) (Poll name) + 1"
          using w1_count by (simp add: sleep_def)
        ultimately show ?thesis using step by linarith
      qed
      ultimately show ?thesis using IH by simp
    qed
  qed
qed

lemma read_register_with_retry_props:
  "read_register_with_retry p c name n w = (r, w') \<Longrightarrow>
     clock w \<le> clock w'
     \<and> extends (\<lambda>e. \<exists>a. REGISTER_MAP name = Some a \<and> e = ReadReg a) w w'
     \<and> (\<forall>v. r = Some v \<longrightarrow> (\<exists>i. reply_of p i = Value v))"
proof (induction n arbitrary: w)
  case 0
  then show ?case by (simp add: extends_refl)
next
  case (Suc n)
  obtain cur w1 where rd: "read_register_by_name p c name w = (cur, w1)"
    by (cases "read_register_by_name p c name w")
  have w1_clock: "clock w \<le> clock w1"
    using clock_read_register_by_name[of w p c name] rd by simp
  have w1_ext: "extends (\<lambda>e. \<exists>a. REGISTER_MAP name = Some a \<and> e = ReadReg a) w w1"
    using extends_read_register_by_name[of name w p c] rd by simp
  show ?case
  proof (cases cur)
    case (Some v)
    with rd Suc.prems have "r = Some v" "w' = w1" by simp_all
    moreover have "\<exists>i. reply_of p i = Value v"
      using rd Some read_register_by_name_value by blast
    ultimately show ?thesis using w1_clock w1_ext by simp
  next
    case None
    let ?w2 = "if 0 < n then sleep 500 w1 else w1"
    from None rd Suc.prems have rec: "read_register_with_retry p c name n ?w2 = (r, w')"
      by simp
    have "clock w \<le> clock ?w2" using w1_clock by (simp add: sleep_def)
    moreover have "extends (\<lambda>e. \<exists>a. REGISTER_MAP name = Some a \<and> e = ReadReg a) w ?w2"
      using w1_ext by (simp add: extends_sleep)
    ultimately show ?thesis
      using Suc.IH[OF rec] extends_trans by fastforce
  qed
qed

text \<open>
  With a positive interval \<open>wait_for_status_change\<close> returns, and its loop has the
  properties of the loop above.
\<close>

lemma status_poll_props:
  assumes "0 < I"
  shows "\<exists>r w'. status_poll p c name es T I s w = Some (r, w')
     \<and> clock w \<le> clock w'
     \<and> extends (polling name) w w'
     \<and> int (count_list (trace w') (Poll name))
         \<le> int (count_list (trace w) (Poll name))
            + max 0 ((s + T * 1000 - clock w + int I - 1) div int I)
     \<and> (r = None \<longrightarrow> T * 1000 \<le> clock w' - s)
     \<and> (\<forall>v. r = Some v \<longrightarrow> v \<in> set es \<and> (\<exists>i. reply_of p i = Value v))"
proof (induction "nat (s + T * 1000 - clock w)" arbitrary: w rule: less_induct)
  case less
  show ?case
  proof (cases "clock w - s < T * 1000")
    case False
    then have "status_poll p c name es T I s w = Some (None, w)"
      by (subst status_poll.simps) simp
    with False show ?thesis by (simp add: extends_refl)
  next
    case True
    obtain cur w1 where
      rd: "read_register_with_retry p c name 1 (mark (Poll name) w) = (cur, w1)"
      by (cases "read_register_with_retry p c name 1 (mark (Poll name) w)")
    note rp = read_register_with_retry_props[OF rd]
    have w1_clock: "clock w \<le> clock w1" using rp by (simp add: mark_def)
    have "extends (polling name) w (mark (Poll name) w)"
      by (simp add: extends_mark polling_def)
    moreover have "extends (polling name) (mark (Poll name) w) w1"
      using rp by (auto intro: extends_mono simp: polling_def)
    ultimately have w1_ext: "extends (polling name) w w1"
      by (rule extends_trans)
    have "count_list (trace w1) (Poll name)
        = count_list (trace (mark (Poll name) w)) (Poll name)"
      using rp
      by (intro extends_count[where P="\<lambda>e. \<exists>a. REGISTER_MAP name = Some a \<and> e = ReadReg a"])
        auto
    then have w1_count:
      "count_list (trace w1) (Poll name) = count_list (trace w) (Poll name) + 1"
      by (simp add: mark_def)
    have pos: "0 < s + T * 1000 - clock w" using True by simp
    have Ipos: "0 < int I" using assms by simp
    show ?thesis
    proof (cases "cur \<noteq> None \<and> the cur \<in> set es")
      case yes: True
      with True rd have "status_poll p c name es T I s w = Some (cur, w1)"
        by (subst status_poll.simps)
          (simp del: read_register_with_retry.simps One_nat_def)
      moreover have "\<forall>v. cur = Some v \<longrightarrow> v \<in> set es \<and> (\<exists>i. reply_of p i = Value v)"
        using yes rp by auto
      moreover have "int (count_list (trace w1) (Poll name))
         \<le> int (count_list (trace w) (Poll name))
            + max 0 ((s + T * 1000 - clock w + int I - 1) div int I)"
        using ceil_first[OF Ipos pos] w1_count by linarith
      moreover have "cur \<noteq> None" using yes by simp
      ultimately show ?thesis using w1_clock w1_ext by blast
    next
      case no: False
      let ?w2 = "sleep (int I) w1"
      from no True rd have unfold: "status_poll p c name es T I s w
          = status_poll p c name es T I s ?w2"
        by (subst status_poll.simps)
          (auto simp del: read_register_with_retry.simps One_nat_def)
      have "nat (s + T * 1000 - clock ?w2) < nat (s + T * 1000 - clock w)"
        using w1_clock pos Ipos by (simp add: sleep_def)
      from less[OF this] obtain r w' where IH:
        "status_poll p c name es T I s ?w2 = Some (r, w')"
        "clock ?w2 \<le> clock w'"
        "extends (polling name) ?w2 w'"
        "int (count_list (trace w') (Poll name))
           \<le> int (count_list (trace ?w2) (Poll name))
              + max 0 ((s + T * 1000 - clock ?w2 + int I - 1) div int I)"
        "r = None \<longrightarrow> T * 1000 \<le> clock w' - s"
        "\<forall>v. r = Some v \<longrightarrow> v \<in> set es \<and> (\<exists>i. reply_of p i = Value v)"
        by blast
      have step: "1 + max 0 ((s + T * 1000 - clock ?w2 + int I - 1) div int I)
          \<le> max 0 ((s + T * 1000 - clock w + int I - 1) div int I)"
        using ceil_step[OF Ipos pos, of "s + T * 1000 - clock ?w2"] w1_clock
        by (simp add: sleep_def)
      have "clock w \<le> clock w'" using IH(2) w1_clock Ipos by (simp add: sleep_def)
      moreover have "extends (polling name) w w'"
        using IH(3) extends_trans[OF extends_sleep[OF w1_ext, of "int I"]] by blast
      moreover have "int (count_list (trace w') (Poll name))
         \<le> int (count_list (trace w) (Poll name))
            + max 0 ((s + T * 1000 - clock w + int I - 1) div int I)"
      proof -
        have "count_list (trace ?w2) (Poll name) = count_list (trace w) (Poll name) + 1"
          using w1_count by (simp add: sleep_def)
        with IH(4) step show ?thesis by linarith
      qed
      ultimately show ?thesis using IH(1,5,6) unfold by metis
    qed
  qed
qed

text \<open>
  Whatever the interval: when \<open>wait_for_status_change\<close> returns its timeout value, the
  deadline has passed.
\<close>

lemma status_poll_deadline:
  assumes "status_poll p c name es T I s w = Some res"
  shows "fst res = None \<longrightarrow> T * 1000 \<le> clock (snd res) - s"
  using assms
proof (induction p c name es T I s w res rule: status_poll.raw_induct[rotated 1, consumes 1])
  case (1 f p c name es T I s w res)
  show ?case
  proof (cases "clock w - s < T * 1000")
    case False
    with 1(2) show ?thesis by auto
  next
    case True
    obtain cur w1 where
      rd: "read_register_with_retry p c name 1 (mark (Poll name) w) = (cur, w1)"
      by (cases "read_register_with_retry p c name 1 (mark (Poll name) w)")
    show ?thesis
    proof (cases "cur \<noteq> None \<and> the cur \<in> set es")
      case yes: True
      with True rd 1(2) have "res = (cur, w1)"
        by (simp del: read_register_with_retry.simps One_nat_def)
      with yes show ?thesis by auto
    next
      case no: False
      with True rd 1(2) have "f p c name es T I s (sleep (int I) w1) = Some res"
        by (auto simp del: read_register_with_retry.simps One_nat_def)
      from 1(1)[OF this] show ?thesis .
    qed
  qed
qed

lemma poll_count_bound:
  fixes a b N :: nat and B :: int
  shows "int a \<le> int b + B \<Longrightarrow> B \<le> int N \<Longrightarrow> a \<le> b + N"
  by linarith

text \<open>
  Claim C6. While the PLC never answers with an expected value, both wait primitives
  return their timeout value (\<open>False\<close>, respectively \<open>None\<close>), the clock at the return
  is at or after the deadline \<open>start + timeout\<close>, and the number of polls made is at
  most \<open>timeout / interval + 1\<close> (in milliseconds, with integer division; no poll at
  all for a negative timeout). The interval of \<open>wait_for_register_value\<close> is its
  constant 0.5 s; for \<open>wait_for_status_change\<close> the bound is the claim's for every
  positive \<open>check_interval\<close>, for which \<open>timeout / interval\<close> is defined.
\<close>

theorem wait_timeout_bounded:
  "((\<forall>i. reply_of p i \<noteq> Value expected_value) \<longrightarrow>
      (\<exists>w'. wait_for_register_value p c register_name expected_value timeout w = (False, w')
         \<and> clock w + timeout * 1000 \<le> clock w'
         \<and> count_list (trace w') (Poll register_name)
             \<le> count_list (trace w) (Poll register_name) + nat (timeout * 1000 div 500 + 1)))
   \<and> (0 < check_interval \<and> (\<forall>i. \<forall>v\<in>set expected_values. reply_of p i \<noteq> Value v) \<longrightarrow>
      (\<exists>w'. wait_for_status_change p c register_name expected_values timeout check_interval w
             = Some (None, w')
         \<and> clock w + timeout * 1000 \<le> clock w'
         \<and> count_list (trace w') (Poll register_name)
             \<le> count_list (trace w) (Poll register_name)
                + nat (timeout * 1000 div int check_interval + 1)))"
proof (intro conjI impI)
  assume never: "\<forall>i. reply_of p i \<noteq> Value expected_value"
  obtain r w' where
    run: "wait_poll p c register_name expected_value timeout (clock w) w = (r, w')"
    by (cases "wait_poll p c register_name expected_value timeout (clock w) w")
  note props = wait_poll_props[OF run]
  from props never have r: "r = False" by blast
  with props have late: "clock w + timeout * 1000 \<le> clock w'" by simp
  from props have "int (count_list (trace w') (Poll register_name))
      \<le> int (count_list (trace w) (Poll register_name))
         + max 0 ((timeout * 1000 + 500 - 1) div 500)"
    by simp
  moreover have "max 0 ((timeout * 1000 + 500 - 1) div 500)
      \<le> int (nat (timeout * 1000 div 500 + 1))"
    by (intro ceil_start) simp
  ultimately have "count_list (trace w') (Poll register_name)
      \<le> count_list (trace w) (Poll register_name) + nat (timeout * 1000 div 500 + 1)"
    by (rule poll_count_bound)
  with run r late
  show "\<exists>w'. wait_for_register_value p c register_name expected_value timeout w = (False, w')
         \<and> clock w + timeout * 1000 \<le> clock w'
         \<and> count_list (trace w') (Poll register_name)
             \<le> count_list (trace w) (Poll register_name) + nat (timeout * 1000 div 500 + 1)"
    by (simp add: wait_for_register_value_def)
next
  assume a: "0 < check_interval \<and> (\<forall>i. \<forall>v\<in>set expected_values. reply_of p i \<noteq> Value v)"
  then have pos: "0 < check_interval" by simp
  from status_poll_props[OF pos, of p c register_name expected_values timeout "clock w" w]
  obtain r w' where props:
    "status_poll p c register_name expected_values timeout check_interval (clock w) w
       = Some (r, w')"
    "int (count_list (trace w') (Poll register_name))
       \<le> int (count_list (trace w) (Poll register_name))
          + max 0 ((clock w + timeout * 1000 - clock w + int check_interval - 1)
                    div int check_interval)"
    "r = None \<longrightarrow> timeout * 1000 \<le> clock w' - clock w"
    "\<forall>v. r = Some v \<longrightarrow> v \<in> set expected_values \<and> (\<exists>i. reply_of p i = Value v)"
    by blast
  from props(4) a have r: "r = None" by (cases r) auto
  with props(3) have late: "clock w + timeout * 1000 \<le> clock w'" by simp
  from props(2) have "int (count_list (trace w') (Poll register_name))
      \<le> int (count_list (trace w) (Poll register_name))
         + max 0 ((timeout * 1000 + int check_interval - 1) div int check_interval)"
    by simp
  moreover have "max 0 ((timeout * 1000 + int check_interval - 1) div int check_interval)
      \<le> int (nat (timeout * 1000 div int check_interval + 1))"
    using pos by (intro ceil_start) simp
  ultimately have "count_list (trace w') (Poll register_name)
      \<le> count_list (trace w) (Poll register_name)
         + nat (timeout * 1000 div int check_interval + 1)"
    by (rule poll_count_bound)
  with props(1) r late
  show "\<exists>w'. wait_for_status_change p c register_name expected_values timeout check_interval w
             = Some (None, w')
         \<and> clock w + timeout * 1000 \<le> clock w'
         \<and> count_list (trace w') (Poll register_name)
             \<le> count_list (trace w) (Poll register_name)
                + nat (timeout * 1000 div int check_interval + 1)"
    by (simp add: wait_for_status_change_def)
qed

theorem wait_timeout_bounded_witness:
  "(\<forall>i. reply_of (plc_script []) i = ErrorResponse)
   \<and> wait_for_register_value (plc_script []) client_on door_register_name 11 1 world0
       = (False, \<lparr>clock = 1000, accesses = 6,
            trace = [Poll door_register_name, ReadReg 0xBB8, ReadReg 0xBB8, ReadReg 0xBB8,
                     Poll door_register_name, ReadReg 0xBB8, ReadReg 0xBB8, ReadReg 0xBB8]\<rparr>)
   \<and> (\<exists>w'. wait_for_register_value (plc_script []) client_on door_register_name 11 1 world0
             = (False, w')
         \<and> clock world0 + 1 * 1000 \<le> clock w'
         \<and> count_list (trace w') (Poll door_register_name)
             \<le> count_list (trace world0) (Poll door_register_name) + nat (1 * 1000 div 500 + 1))
   \<and> (\<exists>w'. wait_for_status_change (plc_script []) client_on storage_status_register [10, 20]
               1 250 world0 = Some (None, w')
         \<and> clock world0 + 1 * 1000 \<le> clock w'
         \<and> count_list (trace w') (Poll storage_status_register)
             \<le> count_list (trace world0) (Poll storage_status_register)
                + nat (1 * 1000 div int 250 + 1))"
proof -
  have silent: "\<forall>i. reply_of (plc_script []) i = ErrorResponse"
    by (simp add: plc_script_def)
  have run: "wait_for_register_value (plc_script []) client_on door_register_name 11 1 world0
       = (False, \<lparr>clock = 1000, accesses = 6,
            trace = [Poll door_register_name, ReadReg 0xBB8, ReadReg 0xBB8, ReadReg 0xBB8,
                     Poll door_register_name, ReadReg 0xBB8, ReadReg 0xBB8, ReadReg 0xBB8]\<rparr>)"
    by (simp add: run_simps)
  have h1: "\<forall>i. reply_of (plc_script []) i \<noteq> Value 11"
    using silent by simp
  have h2: "(0::nat) < 250 \<and> (\<forall>i. \<forall>v\<in>set [10, 20]. reply_of (plc_script []) i \<noteq> Value v)"
    using silent by simp
  from wait_timeout_bounded[where p="plc_script []" and expected_value=11 and c=client_on
      and register_name=door_register_name and timeout=1 and w=world0] h1
  have c1: "\<exists>w'. wait_for_register_value (plc_script []) client_on door_register_name 11 1 world0
             = (False, w')
         \<and> clock world0 + 1 * 1000 \<le> clock w'
         \<and> count_list (trace w') (Poll door_register_name)
             \<le> count_list (trace world0) (Poll door_register_name) + nat (1 * 1000 div 500 + 1)"
    by blast
  from wait_timeout_bounded[where p="plc_script []" and check_interval=250
      and expected_values="[10, 20]" and c=client_on
      and register_name=storage_status_register and timeout=1 and w=world0] h2
  have c2: "\<exists>w'. wait_for_status_change (plc_script []) client_on storage_status_register [10, 20]
               1 250 world0 = Some (None, w')
         \<and> clock world0 + 1 * 1000 \<le> clock w'
         \<and> count_list (trace w') (Poll storage_status_register)
             \<le> count_list (trace world0) (Poll storage_status_register)
                + nat (1 * 1000 div int 250 + 1)"
    by blast
  from silent run c1 c2 show ?thesis by blast
qed

text \<open>
  Claim C2. A poll whose read yields \<open>None\<close> inside the deadline is followed by the
  sleep of the interval and by the rest of the same wait: the loop goes on as after a read
  of a value that is not expected. A failed read therefore never ends a wait, for the only
  failure either primitive returns is the timeout, and it returns that at or after the
  deadline. This holds for \<open>wait_for_register_value\<close> and for
  \<open>wait_for_status_change\<close>.
\<close>

theorem failed_read_keeps_polling:
  "(clock w - start_time < timeout * 1000
      \<and> read_register_by_name p c register_name (mark (Poll register_name) w) = (None, w1)
     \<longrightarrow> wait_poll p c register_name expected_value timeout start_time w
         = wait_poll p c register_name expected_value timeout start_time (sleep 500 w1))
   \<and> (wait_for_register_value p c register_name expected_value timeout w = (False, w')
     \<longrightarrow> clock w + timeout * 1000 \<le> clock w')
   \<and> (clock w - start_time < timeout * 1000
      \<and> read_register_with_retry p c register_name 1 (mark (Poll register_name) w) = (None, w1)
     \<longrightarrow> status_poll p c register_name expected_values timeout check_interval start_time w
         = status_poll p c register_name expected_values timeout check_interval start_time
             (sleep (int check_interval) w1))
   \<and> (wait_for_status_change p c register_name expected_values timeout check_interval w
         = Some (None, w')
     \<longrightarrow> clock w + timeout * 1000 \<le> clock w')"
proof (intro conjI impI)
  assume "clock w - start_time < timeout * 1000
      \<and> read_register_by_name p c register_name (mark (Poll register_name) w) = (None, w1)"
  then show "wait_poll p c register_name expected_value timeout start_time w
         = wait_poll p c register_name expected_value timeout start_time (sleep 500 w1)"
    by (subst wait_poll.simps) simp
next
  assume "wait_for_register_value p c register_name expected_value timeout w = (False, w')"
  then have "wait_poll p c register_name expected_value timeout (clock w) w = (False, w')"
    by (simp add: wait_for_register_value_def)
  from wait_poll_props[OF this] show "clock w + timeout * 1000 \<le> clock w'" by simp
next
  assume "clock w - start_time < timeout * 1000
      \<and> read_register_with_retry p c register_name 1 (mark (Poll register_name) w) = (None, w1)"
  then show "status_poll p c register_name expected_values timeout check_interval start_time w
         = status_poll p c register_name expected_values timeout check_interval start_time
             (sleep (int check_interval) w1)"
    by (subst status_poll.simps) (simp del: read_register_with_retry.simps One_nat_def)
next
  assume "wait_for_status_change p c register_name expected_values timeout check_interval w
         = Some (None, w')"
  then have "status_poll p c register_name expected_values timeout check_interval (clock w) w
      = Some (None, w')"
    by (simp add: wait_for_status_change_def)
  from status_poll_deadline[OF this] show "clock w + timeout * 1000 \<le> clock w'" by simp
qed

theorem failed_read_keeps_polling_witness:
  "clock world0 - 0 < 30 * 1000
   \<and> read_register_by_name plc_late client_on door_register_name
         (mark (Poll door_register_name) world0)
       = (None, \<lparr>clock = 100, accesses = 3,
            trace = [Poll door_register_name, ReadReg 0xBB8, ReadReg 0xBB8, ReadReg 0xBB8]\<rparr>)
   \<and> wait_poll plc_late client_on door_register_name 11 30 0 world0
       = wait_poll plc_late client_on door_register_name 11 30 0
           (sleep 500 \<lparr>clock = 100, accesses = 3,
              trace = [Poll door_register_name, ReadReg 0xBB8, ReadReg 0xBB8, ReadReg 0xBB8]\<rparr>)
   \<and> wait_for_register_value plc_late client_on door_register_name 11 30 world0
       = (True, \<lparr>clock = 600, accesses = 4,
            trace = [Poll door_register_name, ReadReg 0xBB8, ReadReg 0xBB8, ReadReg 0xBB8,
                     Poll door_register_name, ReadReg 0xBB8]\<rparr>)
   \<and> read_register_with_retry plc_late client_on door_register_name 1
         (mark (Poll door_register_name) world0)
       = (None, \<lparr>clock = 100, accesses = 3,
            trace = [Poll door_register_name, ReadReg 0xBB8, ReadReg 0xBB8, ReadReg 0xBB8]\<rparr>)
   \<and> status_poll plc_late client_on door_register_name [11] 30 250 0 world0
       = status_poll plc_late client_on door_register_name [11] 30 250 0
           (sleep (int 250) \<lparr>clock = 100, accesses = 3,
              trace = [Poll door_register_name, ReadReg 0xBB8, ReadReg 0xBB8, ReadReg 0xBB8]\<rparr>)
   \<and> wait_for_status_change plc_late client_on door_register_name [11] 30 250 world0
       = Some (Some 11, \<lparr>clock = 350, accesses = 4,
            trace = [Poll door_register_name, ReadReg 0xBB8, ReadReg 0xBB8, ReadReg 0xBB8,
                     Poll door_register_name, ReadReg 0xBB8]\<rparr>)
   \<and> wait_for_register_value (plc_script []) client_on door_register_name 11 1 world0
       = (False, \<lparr>clock = 1000, accesses = 6,
            trace = [Poll door_register_name, ReadReg 0xBB8, ReadReg 0xBB8, ReadReg 0xBB8,
                     Poll door_register_name, ReadReg 0xBB8, ReadReg 0xBB8, ReadReg 0xBB8]\<rparr>)
   \<and> clock world0 + 1 * 1000 \<le> (1000 :: int)"
proof -
  let ?w1 = "\<lparr>clock = 100, accesses = 3,
            trace = [Poll door_register_name, ReadReg 0xBB8, ReadReg 0xBB8, ReadReg 0xBB8]\<rparr>"
  let ?wf = "\<lparr>clock = 1000, accesses = 6,
            trace = [Poll door_register_name, ReadReg 0xBB8, ReadReg 0xBB8, ReadReg 0xBB8,
                     Poll door_register_name, ReadReg 0xBB8, ReadReg 0xBB8, ReadReg 0xBB8]\<rparr>"
  have guard: "clock world0 - 0 < 30 * 1000"
    by (simp add: world0_def)
  have rd: "read_register_by_name plc_late client_on door_register_name
         (mark (Poll door_register_name) world0) = (None, ?w1)"
    by (simp add: run_simps)
  have rd': "read_register_with_retry plc_late client_on door_register_name 1
         (mark (Poll door_register_name) world0) = (None, ?w1)"
    by (simp add: run_simps)
  have done1: "wait_for_register_value plc_late client_on door_register_name 11 30 world0
       = (True, \<lparr>clock = 600, accesses = 4,
            trace = [Poll door_register_name, ReadReg 0xBB8, ReadReg 0xBB8, ReadReg 0xBB8,
                     Poll door_register_name, ReadReg 0xBB8]\<rparr>)"
    by (simp add: run_simps)
  have done2: "wait_for_status_change plc_late client_on door_register_name [11] 30 250 world0
       = Some (Some 11, \<lparr>clock = 350, accesses = 4,
            trace = [Poll door_register_name, ReadReg 0xBB8, ReadReg 0xBB8, ReadReg 0xBB8,
                     Poll door_register_name, ReadReg 0xBB8]\<rparr>)"
    by (simp add: run_simps)
  have timeout: "wait_for_register_value (plc_script []) client_on door_register_name 11 1 world0
       = (False, ?wf)"
    by (simp add: run_simps)
  note A = failed_read_keeps_polling[where w=world0 and start_time=0 and timeout=30
      and p=plc_late and c=client_on and register_name=door_register_name and ?w1.0="?w1"
      and expected_value=11 and expected_values="[11]" and check_interval=250]
  note B = failed_read_keeps_polling[where w=world0 and timeout=1 and p="plc_script []"
      and c=client_on and register_name=door_register_name and expected_value=11
      and w'="?wf"]
  from A guard rd have step1: "wait_poll plc_late client_on door_register_name 11 30 0 world0
       = wait_poll plc_late client_on door_register_name 11 30 0 (sleep 500 ?w1)"
    by blast
  from A guard rd' have step2:
    "status_poll plc_late client_on door_register_name [11] 30 250 0 world0
       = status_poll plc_late client_on door_register_name [11] 30 250 0 (sleep (int 250) ?w1)"
    by blast
  from B timeout have late: "clock world0 + 1 * 1000 \<le> clock ?wf"
    by blast
  then have late': "clock world0 + 1 * 1000 \<le> (1000 :: int)" by simp
  from guard rd step1 done1 rd' step2 done2 timeout late' show ?thesis
    by blast
qed

section \<open>The steps of the storage process\<close>

lemma extends_wait_for_register_value:
  "extends (polling name) w (snd (wait_for_register_value p c name e T w))"
  using wait_poll_props[of p c name e T "clock w" w]
  by (cases "wait_poll p c name e T (clock w) w") (simp add: wait_for_register_value_def)

lemma extends_check_connection:
  "extends (\<lambda>e. e = ReadReg 0xBCD) w (snd (check_connection p c w))"
  by (cases "reply_of p (accesses w)")
    (simp_all add: check_connection_def register_addresses extends_refl transport_def extends_def)

text \<open>Write a command to a register, then wait on the same register.\<close>

definition handshake :: "pystr \<Rightarrow> int \<Rightarrow> event \<Rightarrow> bool" where
  "handshake name cmd e =
     ((\<exists>a. REGISTER_MAP name = Some a \<and> e = WriteReg a cmd) \<or> polling name e)"

lemma extends_write_handshake:
  "extends (handshake name cmd) w (snd (write_register_by_name p c name cmd w))"
  by (rule extends_mono[OF extends_write_register_by_name]) (auto simp: handshake_def)

lemma extends_wait_handshake:
  "extends (handshake name cmd) w (snd (wait_for_register_value p c name e T w))"
  by (rule extends_mono[OF extends_wait_for_register_value]) (auto simp: handshake_def)

lemma extends_write_then_wait:
  "extends (handshake name cmd) w
     (snd (case write_register_by_name p c name cmd w of
             (written, w1) \<Rightarrow>
               if \<not> written then (False, w1)
               else wait_for_register_value p c name e T w1))"
proof (cases "write_register_by_name p c name cmd w")
  case (Pair written w1)
  have a: "extends (handshake name cmd) w w1"
    using extends_write_handshake[of name cmd w p c] Pair by simp
  show ?thesis
    using Pair a extends_trans[OF a extends_wait_handshake[of name cmd w1 p c e T]]
    by simp
qed

definition door_events :: "int \<Rightarrow> event \<Rightarrow> bool" where
  "door_events cmd e = (e = ReadReg 0xBCD \<or> handshake door_register_name cmd e)"

lemma extends_door_steps:
  "extends (door_events cmd) w
     (snd (case check_connection p c w of
        (connection_ok, w1) \<Rightarrow>
          if \<not> connection_ok then (False, w1)
          else
            (case write_register_by_name p c door_register_name cmd w1 of
               (written, w2) \<Rightarrow>
                 if \<not> written then (False, w2)
                 else wait_for_register_value p c door_register_name e T w2)))"
proof (cases "check_connection p c w")
  case (Pair connection_ok w1)
  have a: "extends (door_events cmd) w w1"
    using extends_check_connection[of w p c] Pair
    by (auto intro: extends_mono simp: door_events_def)
  have b: "extends (door_events cmd) w1
     (snd (case write_register_by_name p c door_register_name cmd w1 of
               (written, w2) \<Rightarrow>
                 if \<not> written then (False, w2)
                 else wait_for_register_value p c door_register_name e T w2))"
    by (rule extends_mono[OF extends_write_then_wait]) (simp add: door_events_def)
  show ?thesis
    using Pair a extends_trans[OF a b] by simp
qed

lemma extends_open_door:
  "extends (\<lambda>e. e = DoorOpenStart \<or> door_events DOOR_OPEN e) w
     (snd (open_door p c None T w))"
proof -
  have a: "extends (\<lambda>e. e = DoorOpenStart \<or> door_events DOOR_OPEN e) w (mark DoorOpenStart w)"
    by (simp add: extends_mark)
  have b: "extends (\<lambda>e. e = DoorOpenStart \<or> door_events DOOR_OPEN e) (mark DoorOpenStart w)
     (snd (open_door p c None T w))"
    unfolding open_door_def Let_def option.case
    by (rule extends_mono[OF extends_door_steps]) simp
  from extends_trans[OF a b] show ?thesis .
qed

lemma extends_close_door:
  "extends (door_events DOOR_CLOSE) (mark DoorCloseStart w) (snd (close_door p c None T w))"
  unfolding close_door_def Let_def option.case
  by (rule extends_door_steps)

lemma door_events_simps:
  "door_events cmd e \<longleftrightarrow>
     e = ReadReg 0xBCD \<or> e = WriteReg 0xBB8 cmd \<or> e = Poll door_register_name \<or> e = ReadReg 0xBB8"
  by (auto simp: door_events_def handshake_def polling_def register_addresses)

lemma count_close_door:
  "count_list (trace (snd (close_door p c None T w))) DoorCloseStart
     = count_list (trace w) DoorCloseStart + 1"
  using extends_count[OF extends_close_door[of w p c T], of DoorCloseStart]
  by (simp add: door_events_simps mark_def)

lemma extends_check_storage_capacity:
  "extends (\<lambda>e. e = ReadReg 0xBBE) w (snd (check_storage_capacity p c w))"
proof (cases "read_register_with_retry p c storage_status_register 3 w")
  case (Pair r w')
  from read_register_with_retry_props[OF Pair]
  have "extends (\<lambda>e. e = ReadReg 0xBBE) w w'"
    by (auto intro: extends_mono simp: register_addresses)
  with Pair show ?thesis
    by (cases r) (simp_all add: check_storage_capacity_def)
qed

lemma extends_confirm_drone_landing:
  "extends (handshake landing_pad_register DRONE_PRESENT) w
     (snd (confirm_drone_landing p g T w))"
  unfolding confirm_drone_landing_def
  by (cases g) (simp_all add: extends_refl extends_write_then_wait)



text \<open>
  Claim C4. When the storage-status register reads \<open>STORAGE_FULL\<close>,
  \<open>execute_storage_process\<close> returns \<open>(False, None)\<close> in the state the capacity
  check left: nothing follows the check, and what the run has added to the trace are reads
  of the storage-status register (address 0xBBE) only, so no register is written.
\<close>

theorem storage_full_fails_without_write:
  assumes "read_register_with_retry p c storage_status_register 3 w = (Some STORAGE_FULL, w')"
  shows "execute_storage_process u p c g pickup_code w = ((False, None), w')
       \<and> (\<exists>es. trace w' = trace w @ es \<and> list_all (\<lambda>e. e = ReadReg 0xBBE) es)"
proof -
  from assms have cap: "check_storage_capacity p c w = (Some False, w')"
    by (simp add: check_storage_capacity_def)
  then have "execute_storage_process u p c g pickup_code w = ((False, None), w')"
    by (simp add: execute_storage_process_def)
  moreover from extends_check_storage_capacity[of w p c] cap
  have "\<exists>es. trace w' = trace w @ es \<and> list_all (\<lambda>e. e = ReadReg 0xBBE) es"
    by (simp add: extends_def)
  ultimately show ?thesis by simp
qed

theorem storage_full_fails_without_write_witness:
  "read_register_with_retry (plc_script [Value 10]) client_on storage_status_register 3 world0
     = (Some STORAGE_FULL, \<lparr>clock = 0, accesses = 1, trace = [ReadReg 0xBBE]\<rparr>)
   \<and> execute_storage_process unicode_excerpt (plc_script [Value 10]) client_on (Some client_on)
         (py ''123456'') world0
     = ((False, None), \<lparr>clock = 0, accesses = 1, trace = [ReadReg 0xBBE]\<rparr>)
   \<and> (\<exists>es. [ReadReg 0xBBE] = trace world0 @ es \<and> list_all (\<lambda>e. e = ReadReg 0xBBE) es)"
proof -
  have full: "read_register_with_retry (plc_script [Value 10]) client_on
       storage_status_register 3 world0
     = (Some STORAGE_FULL, \<lparr>clock = 0, accesses = 1, trace = [ReadReg 0xBBE]\<rparr>)"
    by (simp add: run_simps)
  from storage_full_fails_without_write[OF full, of unicode_excerpt "Some client_on"
      "py ''123456''"] full
  show ?thesis by simp
qed

text \<open>
  Claim C5. When the capacity check and the door opening have succeeded and the landing
  confirmation fails, the rest of the run is one call of \<open>close_door\<close>, whatever it
  returns, and the result \<open>(False, None)\<close>: the trace of the whole run holds exactly
  one more entry into the door-close command than before the run. This holds whatever the
  name \<open>modbus_client\<close> is bound to (\<open>g\<close>).
\<close>

theorem landing_failure_closes_door_once:
  assumes "check_storage_capacity p c w = (Some True, w1)"
    and "open_door p c None 30 w1 = (True, w2)"
    and "confirm_drone_landing p g 60 w2 = (False, w3)"
  shows "execute_storage_process u p c g pickup_code w
           = ((False, None), snd (close_door p c None 30 w3))
       \<and> count_list (trace (snd (execute_storage_process u p c g pickup_code w))) DoorCloseStart
           = count_list (trace w) DoorCloseStart + 1"
proof -
  have run: "execute_storage_process u p c g pickup_code w
      = ((False, None), snd (close_door p c None 30 w3))"
    using assms by (simp add: execute_storage_process_def split: prod.split)
  have "count_list (trace w1) DoorCloseStart = count_list (trace w) DoorCloseStart"
    using extends_count[OF extends_check_storage_capacity[of w p c], of DoorCloseStart] assms(1)
    by simp
  moreover have "count_list (trace w2) DoorCloseStart = count_list (trace w1) DoorCloseStart"
    using extends_count[OF extends_open_door[of w1 p c 30], of DoorCloseStart] assms(2)
    by (simp add: door_events_simps)
  moreover have "count_list (trace w3) DoorCloseStart = count_list (trace w2) DoorCloseStart"
    using extends_count[OF extends_confirm_drone_landing[of w2 p g 60], of DoorCloseStart]
      assms(3)
    by (simp add: handshake_def polling_def)
  ultimately show ?thesis
    using run count_close_door[of p c 30 w3] by simp
qed

theorem landing_failure_closes_door_once_witness:
  "check_storage_capacity plc_no_landing client_on world0
     = (Some True, \<lparr>clock = 0, accesses = 1, trace = [ReadReg 0xBBE]\<rparr>)
   \<and> open_door plc_no_landing client_on None 30
         \<lparr>clock = 0, accesses = 1, trace = [ReadReg 0xBBE]\<rparr>
     = (True, \<lparr>clock = 0, accesses = 4,
          trace = [ReadReg 0xBBE, DoorOpenStart, ReadReg 0xBCD, WriteReg 0xBB8 10,
                   Poll door_register_name, ReadReg 0xBB8]\<rparr>)
   \<and> confirm_drone_landing plc_no_landing (Some client_on) 60
         \<lparr>clock = 0, accesses = 4,
          trace = [ReadReg 0xBBE, DoorOpenStart, ReadReg 0xBCD, WriteReg 0xBB8 10,
                   Poll door_register_name, ReadReg 0xBB8]\<rparr>
     = (False, \<lparr>clock = 0, accesses = 7,
          trace = [ReadReg 0xBBE, DoorOpenStart, ReadReg 0xBCD, WriteReg 0xBB8 10,
                   Poll door_register_name, ReadReg 0xBB8,
                   WriteReg 0xBB9 10, WriteReg 0xBB9 10, WriteReg 0xBB9 10]\<rparr>)
   \<and> execute_storage_process unicode_excerpt plc_no_landing client_on (Some client_on)
         (py ''123456'') world0
     = ((False, None), \<lparr>clock = 0, accesses = 10,
          trace = [ReadReg 0xBBE, DoorOpenStart, ReadReg 0xBCD, WriteReg 0xBB8 10,
                   Poll door_register_name, ReadReg 0xBB8,
                   WriteReg 0xBB9 10, WriteReg 0xBB9 10, WriteReg 0xBB9 10,
                   DoorCloseStart, ReadReg 0xBCD, WriteReg 0xBB8 20,
                   Poll door_register_name, ReadReg 0xBB8]\<rparr>)
   \<and> count_list (trace (snd (execute_storage_process unicode_excerpt plc_no_landing client_on
         (Some client_on) (py ''123456'') world0))) DoorCloseStart
     = count_list (trace world0) DoorCloseStart + 1"
proof -
  let ?w1 = "\<lparr>clock = 0, accesses = 1, trace = [ReadReg 0xBBE]\<rparr>"
  let ?w2 = "\<lparr>clock = 0, accesses = 4,
          trace = [ReadReg 0xBBE, DoorOpenStart, ReadReg 0xBCD, WriteReg 0xBB8 10,
                   Poll door_register_name, ReadReg 0xBB8]\<rparr>"
  let ?w3 = "\<lparr>clock = 0, accesses = 7,
          trace = [ReadReg 0xBBE, DoorOpenStart, ReadReg 0xBCD, WriteReg 0xBB8 10,
                   Poll door_register_name, ReadReg 0xBB8,
                   WriteReg 0xBB9 10, WriteReg 0xBB9 10, WriteReg 0xBB9 10]\<rparr>"
  have s1: "check_storage_capacity plc_no_landing client_on world0 = (Some True, ?w1)"
    by (simp add: run_simps)
  have s2: "open_door plc_no_landing client_on None 30 ?w1 = (True, ?w2)"
    by (simp add: run_simps)
  have s3: "confirm_drone_landing plc_no_landing (Some client_on) 60 ?w2 = (False, ?w3)"
    by (simp add: run_simps)
  have s4: "close_door plc_no_landing client_on None 30 ?w3
      = (True, \<lparr>clock = 0, accesses = 10,
          trace = [ReadReg 0xBBE, DoorOpenStart, ReadReg 0xBCD, WriteReg 0xBB8 10,
                   Poll door_register_name, ReadReg 0xBB8,
                   WriteReg 0xBB9 10, WriteReg 0xBB9 10, WriteReg 0xBB9 10,
                   DoorCloseStart, ReadReg 0xBCD, WriteReg 0xBB8 20,
                   Poll door_register_name, ReadReg 0xBB8]\<rparr>)"
    by (simp add: run_simps)
  from landing_failure_closes_door_once[OF s1 s2 s3, of unicode_excerpt "py ''123456''"]
    s1 s2 s3 s4
  show ?thesis by (simp add: world0_def)
qed





section \<open>Pickup and send codes\<close>



definition decimal_digit :: "unicode_db \<Rightarrow> nat \<Rightarrow> bool" where
  "decimal_digit u ch = (case u ch of Decimal d \<Rightarrow> True | Digit \<Rightarrow> False | NoDigit \<Rightarrow> False)"








lemma decimal_value_Some:
  "list_all (decimal_digit u) s \<Longrightarrow> \<exists>n. decimal_value u acc s = Some n"
  by (induction s arbitrary: acc) (auto simp: decimal_digit_def split: uclass.splits)













section \<open>services/machine\_manager.py: the health of a session\<close>












section \<open>services/machine\_manager.py: the locks\<close>

text \<open>
  Threads that each run one operation: \<open>get_machine_client\<close> for a cabinet, then the
  register accesses of the operation through the client it returned. The manager's
  \<open>_connection_lock\<close> is held around the whole of \<open>get_machine_client\<close>, the
  \<open>_lock\<close> of the cabinet's \<open>MachineConnection\<close> around \<open>get_client\<close>
  inside it; both are released when \<open>get_machine_client\<close> returns, and the source
  takes no lock around the accesses that follow. (The periodic cleanup, which takes and
  releases the manager's lock before the acquisition, is left out.)

  A \<open>threading.Lock\<close> is free or held; acquiring a held lock blocks. The threads
  interleave at the grain of these actions: a schedule is the list of the threads in the
  order of their steps, and a schedule that asks a blocked or finished thread to step is
  not a run.
\<close>

datatype lock = ConnectionLock | SessionLock pystr

datatype action = Acquire lock | Release lock | Connect pystr | Access pystr nat

text \<open>
  The state of a run: who holds each lock, the position of each thread in its operation,
  and the connection attempts and register accesses made so far with their threads.
\<close>

record threads =
  holder :: "lock \<Rightarrow> nat option"
  pc :: "nat \<Rightarrow> nat"
  history :: "(nat \<times> action) list"

text \<open>\<open>get_machine_client\<close> for a cabinet whose connection object exists.\<close>

definition get_machine_client :: "pystr \<Rightarrow> action list" where
  "get_machine_client machine_name =
     [Acquire ConnectionLock,
      Acquire (SessionLock machine_name),
      Connect machine_name,
      Release (SessionLock machine_name),
      Release ConnectionLock]"

definition operation :: "pystr \<Rightarrow> nat list \<Rightarrow> action list" where
  "operation machine_name registers =
     get_machine_client machine_name @ map (Access machine_name) registers"

definition step :: "(nat \<Rightarrow> action list) \<Rightarrow> threads \<Rightarrow> nat \<Rightarrow> threads option" where
  "step program s t =
     (if pc s t < length (program t) then
        (case program t ! pc s t of
           Acquire l \<Rightarrow>
             (if holder s l = None
              then Some (s\<lparr>holder := (holder s)(l := Some t), pc := (pc s)(t := pc s t + 1)\<rparr>)
              else None)
         | Release l \<Rightarrow>
             (if holder s l = None then None
              else Some (s\<lparr>holder := (holder s)(l := None), pc := (pc s)(t := pc s t + 1)\<rparr>))
         | Connect n \<Rightarrow>
             Some (s\<lparr>pc := (pc s)(t := pc s t + 1), history := history s @ [(t, Connect n)]\<rparr>)
         | Access n a \<Rightarrow>
             Some (s\<lparr>pc := (pc s)(t := pc s t + 1), history := history s @ [(t, Access n a)]\<rparr>))
      else None)"

fun run :: "(nat \<Rightarrow> action list) \<Rightarrow> threads \<Rightarrow> nat list \<Rightarrow> threads option" where
  "run program s [] = Some s"
| "run program s (t # schedule) =
     (case step program s t of
        None \<Rightarrow> None
      | Some s' \<Rightarrow> run program s' schedule)"





















end
